theory Spec2Isabelle
  imports Main
begin

section \<open>The GI table scraper (scrape\_gi\_data.py)\<close>

text \<open>
  The script downloads one page, finds the table with id \<^verbatim>\<open>tablepress-1\<close>, reads the
  header cells and the body rows, validates every row with the pydantic model
  \<^verbatim>\<open>GIEntry\<close> and writes the accepted rows with \<^verbatim>\<open>csv.DictWriter\<close>.

  A Python \<^verbatim>\<open>str\<close> is a \<^typ>\<open>string\<close>; one \<^typ>\<open>char\<close> stands for one code point
  below 256. The outcome of the HTTP request and of the file operations is an input of
  the model; what the script prints, its exit status and what it leaves in
  \<^verbatim>\<open>gi_data.csv\<close> are the result.
\<close>

subsection \<open>Strings\<close>

text \<open>The code points below 256 that \<^verbatim>\<open>str.strip()\<close> removes (those with \<^verbatim>\<open>str.isspace\<close>).\<close>

definition is_space :: "char \<Rightarrow> bool" where
  "is_space c = (c \<in> set [CHR 0x09, CHR 0x0A, CHR 0x0B, CHR 0x0C, CHR 0x0D,
                           CHR 0x1C, CHR 0x1D, CHR 0x1E, CHR 0x1F, CHR 0x20,
                           CHR 0x85, CHR 0xA0])"

text \<open>\<^verbatim>\<open>s.strip()\<close>\<close>

definition strip :: "string \<Rightarrow> string" where
  "strip s = rev (dropWhile is_space (rev (dropWhile is_space s)))"

subsection \<open>The document tree of BeautifulSoup\<close>

text \<open>
  A \<^verbatim>\<open>Tag\<close> has a name, its attribute dictionary and its contents.
  \<open>NavigableString\<close> stands for the strings that \<^verbatim>\<open>get_text\<close> reads (text nodes and
  CDATA sections); \<open>OtherString\<close> stands for the string classes that it leaves out
  (comments, declarations, processing instructions, script and style text).
\<close>

datatype node =
    Tag string "(string \<times> string) list" "node list"
  | NavigableString string
  | OtherString string

text \<open>\<^verbatim>\<open>tag.descendants\<close>: every node below the tag, in document order.\<close>

fun descendants :: "node \<Rightarrow> node list" where
  "descendants (Tag n a cs) = concat (map (\<lambda>c. c # descendants c) cs)"
| "descendants (NavigableString s) = []"
| "descendants (OtherString s) = []"

fun is_tag :: "string \<Rightarrow> node \<Rightarrow> bool" where
  "is_tag nm (Tag n a cs) = (n = nm)"
| "is_tag nm (NavigableString s) = False"
| "is_tag nm (OtherString s) = False"

fun has_attr :: "string \<Rightarrow> string \<Rightarrow> node \<Rightarrow> bool" where
  "has_attr k v (Tag n a cs) = (map_of a k = Some v)"
| "has_attr k v (NavigableString s) = False"
| "has_attr k v (OtherString s) = False"

text \<open>\<^verbatim>\<open>tag.find_all(name)\<close>\<close>

definition find_all :: "string \<Rightarrow> node \<Rightarrow> node list" where
  "find_all nm t = filter (is_tag nm) (descendants t)"

text \<open>\<^verbatim>\<open>tag.find(name)\<close>: the first match, or \<^verbatim>\<open>None\<close>.\<close>

definition find_tag :: "string \<Rightarrow> node \<Rightarrow> node option" where
  "find_tag nm t = (case find_all nm t of [] \<Rightarrow> None | x # xs \<Rightarrow> Some x)"

text \<open>\<^verbatim>\<open>soup.find('table', id='tablepress-1')\<close>\<close>

definition find_table :: "node \<Rightarrow> node option" where
  "find_table soup =
     (case filter (has_attr ''id'' ''tablepress-1'') (find_all ''table'' soup) of
        [] \<Rightarrow> None
      | x # xs \<Rightarrow> Some x)"

fun navigable_strings :: "node list \<Rightarrow> string list" where
  "navigable_strings [] = []"
| "navigable_strings (NavigableString s # ns) = s # navigable_strings ns"
| "navigable_strings (Tag n a cs # ns) = navigable_strings ns"
| "navigable_strings (OtherString s # ns) = navigable_strings ns"

text \<open>
  \<^verbatim>\<open>tag.get_text(strip=True)\<close>: every text node below the tag is stripped, the empty
  ones are dropped, and the rest are joined with the empty separator.
\<close>

definition get_text :: "node \<Rightarrow> string" where
  "get_text t =
     concat (filter (\<lambda>s. s \<noteq> []) (map strip (navigable_strings (descendants t))))"

subsection \<open>The model GIEntry\<close>

record GIEntry =
  food_name :: string
  gi :: string
  manufacturer :: string
  category :: string
  country :: string
  serving_size :: string
  carbs_portion :: string
  gl :: string
  reference :: string
  subjects_type :: string
  time :: string
  subjects_number :: string
  year :: string

text \<open>The aliases of the thirteen fields, in the order of the class body.\<close>

definition aliases :: "string list" where
  "aliases =
     [''Food Name'', ''GI'', ''Food Manufacturer'', ''Product Category'',
      ''Country of food production'', ''Serving Size (g)'',
      ''Carbohydrate portion (g) or Average Carbohydrate portion (g)'',
      ''GL'', ''Reference:'', ''Subjects type'', ''Time'', ''Subjects Number'',
      ''Year of test'']"

text \<open>
  The validator that runs before the type check of every field. All values of a row are
  strings, so \<^verbatim>\<open>isinstance(v, str)\<close> holds.
\<close>

definition empty_to_none :: "string \<Rightarrow> string" where
  "empty_to_none v = (if strip v = [] then [] else v)"

text \<open>A pydantic \<^verbatim>\<open>ValidationError\<close>: the aliases reported as missing.\<close>

datatype validation_error = ValidationError "string list"

text \<open>
  The value of one field while the model is built. The second case is never reached in
  \<open>GIEntry_init\<close>, which builds the model only when no alias is missing.
\<close>

definition field_value :: "(string \<rightharpoonup> string) \<Rightarrow> string \<Rightarrow> string" where
  "field_value kw a = (case kw a of Some v \<Rightarrow> empty_to_none v | None \<Rightarrow> [])"

text \<open>
  \<^verbatim>\<open>GIEntry(**row_dict)\<close>: fields are read by alias, a key that is no alias is ignored,
  and every alias that is not a key is reported.
\<close>

definition GIEntry_init :: "(string \<rightharpoonup> string) \<Rightarrow> validation_error + GIEntry" where
  "GIEntry_init kw =
     (case filter (\<lambda>a. kw a = None) aliases of
        m # ms \<Rightarrow> Inl (ValidationError (m # ms))
      | [] \<Rightarrow> Inr \<lparr>food_name = field_value kw ''Food Name'',
                  gi = field_value kw ''GI'',
                  manufacturer = field_value kw ''Food Manufacturer'',
                  category = field_value kw ''Product Category'',
                  country = field_value kw ''Country of food production'',
                  serving_size = field_value kw ''Serving Size (g)'',
                  carbs_portion = field_value kw
                    ''Carbohydrate portion (g) or Average Carbohydrate portion (g)'',
                  gl = field_value kw ''GL'',
                  reference = field_value kw ''Reference:'',
                  subjects_type = field_value kw ''Subjects type'',
                  time = field_value kw ''Time'',
                  subjects_number = field_value kw ''Subjects Number'',
                  year = field_value kw ''Year of test''\<rparr>)"

text \<open>\<^verbatim>\<open>entry.model_dump(by_alias=True)\<close>: a dictionary from alias to value, in field order.\<close>

definition model_dump :: "GIEntry \<Rightarrow> (string \<times> string) list" where
  "model_dump e =
     [(''Food Name'', food_name e), (''GI'', gi e),
      (''Food Manufacturer'', manufacturer e), (''Product Category'', category e),
      (''Country of food production'', country e),
      (''Serving Size (g)'', serving_size e),
      (''Carbohydrate portion (g) or Average Carbohydrate portion (g)'', carbs_portion e),
      (''GL'', gl e), (''Reference:'', reference e),
      (''Subjects type'', subjects_type e), (''Time'', time e),
      (''Subjects Number'', subjects_number e), (''Year of test'', year e)]"

subsection \<open>The row loop of main\<close>

text \<open>What the script prints, one constructor for each \<^verbatim>\<open>print\<close> of the source.\<close>

datatype exn = OSError string | ValueError "string list"

datatype message =
    Downloading
  | HttpErrorOccurred string
  | AnErrorOccurred string
  | TableNotFound
  | FoundOtherTables nat
  | NoThead
  | FoundColumns "string list"
  | NoTbody
  | Processing nat
  | ValidationFailed string
  | Printed validation_error
  | NoValidEntries
  | Saved nat string
  | FailedToSave exn

text \<open>Lines 98 to 102: the cell texts of a row are padded or cut to the header count.\<close>

definition reconcile :: "nat \<Rightarrow> string list \<Rightarrow> string list" where
  "reconcile n data =
     (if length data < n then data @ replicate (n - length data) []
      else if length data > n then take n data
      else data)"

text \<open>\<^verbatim>\<open>dict(zip(keys, values))\<close>: the pairs are stored from left to right.\<close>

definition dict_zip :: "string list \<Rightarrow> string list \<Rightarrow> (string \<rightharpoonup> string)" where
  "dict_zip ks vs = foldl (\<lambda>m (k, v). m(k \<mapsto> v)) Map.empty (zip ks vs)"

text \<open>\<^verbatim>\<open>data[0] if data else 'Unknown'\<close>\<close>

definition row_label :: "string list \<Rightarrow> string" where
  "row_label data = (case data of [] \<Rightarrow> ''Unknown'' | c # cs \<Rightarrow> c)"

text \<open>
  One pass of the loop over the rows (lines 88 to 113). The state is the list
  \<^verbatim>\<open>entries\<close> and what has been printed. A row found by \<^verbatim>\<open>find_all\<close> is a tag, so
  the test of line 89 never skips one.
\<close>

definition process_row ::
  "string list \<Rightarrow> node \<Rightarrow> (string \<times> string) list list \<times> message list
     \<Rightarrow> (string \<times> string) list list \<times> message list" where
  "process_row column_names row st =
     (let cells = find_all ''td'' row in
      if cells = [] then st
      else
        let data = reconcile (length column_names) (map get_text cells);
            row_dict = dict_zip column_names data
        in case GIEntry_init row_dict of
             Inr entry \<Rightarrow> (fst st @ [model_dump entry], snd st)
           | Inl e \<Rightarrow> (fst st, snd st @ [ValidationFailed (row_label data), Printed e]))"

fun process_rows ::
  "string list \<Rightarrow> node list \<Rightarrow> (string \<times> string) list list \<times> message list
     \<Rightarrow> (string \<times> string) list list \<times> message list" where
  "process_rows column_names [] st = st"
| "process_rows column_names (row # rows) st =
     process_rows column_names rows (process_row column_names row st)"

subsection \<open>csv.DictWriter with the default dialect\<close>

text \<open>
  The dialect is \<^verbatim>\<open>excel\<close>: delimiter comma, quote character \<^verbatim>\<open>"\<close>, minimal quoting,
  doubled quotes, line terminator CR LF. A field is quoted when it holds the delimiter,
  the quote character or a character of the line terminator.
\<close>

definition needs_quoting :: "string \<Rightarrow> bool" where
  "needs_quoting s = (\<exists>c \<in> set s. c \<in> set [CHR '','', CHR 0x22, CHR 0x0D, CHR 0x0A])"

definition quote_field :: "string \<Rightarrow> string" where
  "quote_field s =
     (if needs_quoting s
      then CHR 0x22 # concat (map (\<lambda>c. if c = CHR 0x22 then [c, c] else [c]) s) @ [CHR 0x22]
      else s)"

fun join_fields :: "string list \<Rightarrow> string" where
  "join_fields [] = []"
| "join_fields [x] = x"
| "join_fields (x # y # ys) = x @ CHR '','' # join_fields (y # ys)"

text \<open>
  \<^verbatim>\<open>writer.writerow(row)\<close> builds one record; a record of one empty field is written
  as a pair of quotes.
\<close>

definition csv_line :: "string list \<Rightarrow> string" where
  "csv_line vals =
     (if vals = [[]] then [CHR 0x22, CHR 0x22] else join_fields (map quote_field vals))
     @ [CHR 0x0D, CHR 0x0A]"

text \<open>
  \<^verbatim>\<open>DictWriter._dict_to_list\<close> with \<^verbatim>\<open>extrasaction='raise'\<close> and \<^verbatim>\<open>restval=''\<close>: a
  key outside the field names raises \<^verbatim>\<open>ValueError\<close>, a field name that is no key gives
  the empty string.
\<close>

definition row_values :: "string list \<Rightarrow> (string \<times> string) list \<Rightarrow> string list" where
  "row_values fieldnames rowdict =
     map (\<lambda>key. case map_of rowdict key of Some v \<Rightarrow> v | None \<Rightarrow> []) fieldnames"

definition dict_to_list :: "string list \<Rightarrow> (string \<times> string) list \<Rightarrow> exn + string list" where
  "dict_to_list fieldnames rowdict =
     (case filter (\<lambda>k. k \<notin> set fieldnames) (map fst rowdict) of
        w # ws \<Rightarrow> Inl (ValueError (w # ws))
      | [] \<Rightarrow> Inr (row_values fieldnames rowdict))"

subsection \<open>The output file\<close>

text \<open>
  What the file system does is an input. Either \<^verbatim>\<open>open\<close> fails; or the file is opened
  and an \<^verbatim>\<open>OSError\<close> is raised later, when \<open>n\<close> characters of the text have reached the
  file; or nothing fails.

  The file object is buffered: a write adds to the text written so far, and the text
  reaches the file when the buffer is flushed, during some write or at the latest when
  the \<^verbatim>\<open>with\<close> block closes the file. The flush that fails can come at any character
  of the text, and whichever call raises the \<^verbatim>\<open>OSError\<close>, the handler of line 127 is
  the one that catches it. The model therefore lets every write succeed on the buffer and
  raises the error at the close, where the file is left with the first \<open>n\<close> characters
  of the text written (the model counts characters of the text, not bytes of its
  encoding). An \<^verbatim>\<open>OSError\<close> of the close replaces an exception raised inside the block.
\<close>

datatype io_outcome = OpenFails string | WriteFails nat string | IoOk

text \<open>
  \<^verbatim>\<open>open(output_csv, 'w', newline='', encoding='utf-8')\<close>: the file is created empty. The
  result is the text written to the file object so far.
\<close>

definition open_file :: "io_outcome \<Rightarrow> exn + string" where
  "open_file io =
     (case io of
        OpenFails e \<Rightarrow> Inl (OSError e)
      | WriteFails n e \<Rightarrow> Inr []
      | IoOk \<Rightarrow> Inr [])"

definition f_write :: "string \<Rightarrow> string \<Rightarrow> string" where
  "f_write f s = f @ s"

text \<open>
  The end of the \<^verbatim>\<open>with\<close> block: what is left in the file, and the \<^verbatim>\<open>OSError\<close> if
  one was raised. The first case is never reached, the file was not opened then.
\<close>

definition close_file :: "io_outcome \<Rightarrow> string \<Rightarrow> string \<times> exn option" where
  "close_file io f =
     (case io of
        OpenFails e \<Rightarrow> (f, None)
      | WriteFails n e \<Rightarrow> (take n f, Some (OSError e))
      | IoOk \<Rightarrow> (f, None))"

text \<open>\<^verbatim>\<open>DictWriter.writerow\<close>\<close>

definition writerow ::
  "string list \<Rightarrow> (string \<times> string) list \<Rightarrow> string \<Rightarrow> string \<times> exn option" where
  "writerow fieldnames rowdict f =
     (case dict_to_list fieldnames rowdict of
        Inl e \<Rightarrow> (f, Some e)
      | Inr vals \<Rightarrow> (f_write f (csv_line vals), None))"

text \<open>\<^verbatim>\<open>DictWriter.writeheader\<close>: the row \<^verbatim>\<open>dict(zip(fieldnames, fieldnames))\<close>.\<close>

definition writeheader :: "string list \<Rightarrow> string \<Rightarrow> string \<times> exn option" where
  "writeheader fieldnames f = writerow fieldnames (zip fieldnames fieldnames) f"

text \<open>\<^verbatim>\<open>DictWriter.writerows\<close>: the rows in order, up to the first exception.\<close>

fun writerows ::
  "string list \<Rightarrow> (string \<times> string) list list \<Rightarrow> string \<Rightarrow> string \<times> exn option" where
  "writerows fieldnames [] f = (f, None)"
| "writerows fieldnames (r # rs) f =
     (case writerow fieldnames r f of
        (f', Some e) \<Rightarrow> (f', Some e)
      | (f', None) \<Rightarrow> writerows fieldnames rs f')"

subsection \<open>main\<close>

text \<open>
  The request either raises \<^verbatim>\<open>httpx.HTTPStatusError\<close>, or raises another exception, or
  returns a response; \<open>Response\<close> carries the tree that
  \<^verbatim>\<open>BeautifulSoup(response.text, 'html.parser')\<close> builds from it.
\<close>

datatype fetch_outcome = HTTPStatusError string | OtherException string | Response node

text \<open>
  The result of a run: the exit status, what was printed, and the content of
  \<^verbatim>\<open>gi_data.csv\<close> as the run leaves it (\<open>None\<close> when the run never opened the file).
\<close>

record outcome =
  exit_status :: int
  printed :: "message list"
  gi_data_csv :: "string option"

definition output_csv :: string where
  "output_csv = ''gi_data.csv''"

text \<open>
  Lines 119 to 129. The exception that the handler catches is the one of the close if it
  raised, and else the one raised inside the block.
\<close>

definition save_csv ::
  "io_outcome \<Rightarrow> string list \<Rightarrow> (string \<times> string) list list \<Rightarrow> message list \<Rightarrow> outcome" where
  "save_csv io column_names entries out =
     (case open_file io of
        Inl e \<Rightarrow> \<lparr>exit_status = 1, printed = out @ [FailedToSave e], gi_data_csv = None\<rparr>
      | Inr f \<Rightarrow>
          (case (case writeheader column_names f of
                   (f', Some e) \<Rightarrow> (f', Some e)
                 | (f', None) \<Rightarrow> writerows column_names entries f') of
             (f'', raised) \<Rightarrow>
               (case close_file io f'' of
                  (left, failed) \<Rightarrow>
                    (case (case failed of Some e \<Rightarrow> Some e | None \<Rightarrow> raised) of
                       None \<Rightarrow>
                         \<lparr>exit_status = 0,
                          printed = out @ [Saved (length entries) output_csv],
                          gi_data_csv = Some left\<rparr>
                     | Some e \<Rightarrow>
                         \<lparr>exit_status = 1,
                          printed = out @ [FailedToSave e],
                          gi_data_csv = Some left\<rparr>))))"

text \<open>Lines 68 to 117, for the table that was found.\<close>

definition extract_and_save :: "io_outcome \<Rightarrow> node \<Rightarrow> message list \<Rightarrow> outcome" where
  "extract_and_save io table out =
     (case find_tag ''thead'' table of
        None \<Rightarrow> \<lparr>exit_status = 1, printed = out @ [NoThead], gi_data_csv = None\<rparr>
      | Some thead \<Rightarrow>
          let column_names = map get_text (find_all ''th'' thead);
              out1 = out @ [FoundColumns column_names]
          in (case find_tag ''tbody'' table of
                None \<Rightarrow> \<lparr>exit_status = 1, printed = out1 @ [NoTbody], gi_data_csv = None\<rparr>
              | Some tbody \<Rightarrow>
                  let rows = find_all ''tr'' tbody;
                      st = process_rows column_names rows ([], out1 @ [Processing (length rows)])
                  in if fst st = []
                     then \<lparr>exit_status = 0, printed = snd st @ [NoValidEntries],
                           gi_data_csv = None\<rparr>
                     else save_csv io column_names (fst st) (snd st)))"

definition main :: "fetch_outcome \<Rightarrow> io_outcome \<Rightarrow> outcome" where
  "main fetched io =
     (case fetched of
        HTTPStatusError e \<Rightarrow>
          \<lparr>exit_status = 1, printed = [Downloading, HttpErrorOccurred e], gi_data_csv = None\<rparr>
      | OtherException e \<Rightarrow>
          \<lparr>exit_status = 1, printed = [Downloading, AnErrorOccurred e], gi_data_csv = None\<rparr>
      | Response soup \<Rightarrow>
          (case find_table soup of
             None \<Rightarrow>
               let tables = find_all ''table'' soup
               in \<lparr>exit_status = 1,
                   printed = [Downloading, TableNotFound]
                     @ (if tables \<noteq> [] then [FoundOtherTables (length tables)] else []),
                   gi_data_csv = None\<rparr>
           | Some table \<Rightarrow> extract_and_save io table [Downloading]))"

subsection \<open>Documents for the examples\<close>

text \<open>
  A page whose body holds the given nodes, the table with the id the script looks for, a
  header section with one \<^verbatim>\<open>th\<close> for each label, and a body section with one
  \<^verbatim>\<open>tr\<close> for each row and one \<^verbatim>\<open>td\<close> for each cell text.
\<close>

definition page :: "node list \<Rightarrow> node" where
  "page body = Tag ''[document]'' [] [Tag ''html'' [] [Tag ''body'' [] body]]"

definition gi_table :: "node list \<Rightarrow> node" where
  "gi_table sections = Tag ''table'' [(''id'', ''tablepress-1'')] sections"

definition thead_of :: "string list \<Rightarrow> node" where
  "thead_of labels =
     Tag ''thead'' [] [Tag ''tr'' [] (map (\<lambda>l. Tag ''th'' [] [NavigableString l]) labels)]"

definition tbody_of :: "string list list \<Rightarrow> node" where
  "tbody_of rows =
     Tag ''tbody'' []
       (map (\<lambda>cells. Tag ''tr'' [] (map (\<lambda>c. Tag ''td'' [] [NavigableString c]) cells)) rows)"

section \<open>Properties\<close>

subsection \<open>Row reconciliation\<close>

text \<open>
  C1. For every body row, the reconciled row has exactly as many entries as there are
  header columns: a row with fewer cells than headers is padded on the right with empty
  strings up to the header count, and a row with more cells than headers keeps its first
  cells, as many as there are headers.
\<close>

theorem reconcile_header_count:
  "length (reconcile (length column_names) data) = length column_names
   \<and> (length data < length column_names \<longrightarrow>
        reconcile (length column_names) data
          = data @ replicate (length column_names - length data) [])
   \<and> (length column_names < length data \<longrightarrow>
        reconcile (length column_names) data = take (length column_names) data)"
  by (simp add: reconcile_def)

theorem reconcile_header_count_witness:
  "reconcile (length [''h1'', ''h2'', ''h3'']) [''a''] = [''a'', [], []]
   \<and> reconcile (length [''h1'']) [''a'', ''b''] = [''a'']"
  using reconcile_header_count [of "[''h1'', ''h2'', ''h3'']" "[''a'']"]
    reconcile_header_count [of "[''h1'']" "[''a'', ''b'']"]
  by (simp add: numeral_eq_Suc)

subsection \<open>Validated records\<close>

lemma strip_Nil_iff: "strip v = [] \<longleftrightarrow> (\<forall>c \<in> set v. is_space c)"
proof -
  have a: "dropWhile is_space v = []" if "\<forall>x \<in> set (dropWhile is_space v). is_space x"
  proof (rule ccontr)
    assume ne: "dropWhile is_space v \<noteq> []"
    then have "\<not> is_space (hd (dropWhile is_space v))"
      by (rule hd_dropWhile)
    moreover from ne have "hd (dropWhile is_space v) \<in> set (dropWhile is_space v)"
      by simp
    ultimately show False using that by blast
  qed
  have "strip v = [] \<longleftrightarrow> (\<forall>x \<in> set (dropWhile is_space v). is_space x)"
    by (simp add: strip_def dropWhile_eq_Nil_conv)
  also have "\<dots> \<longleftrightarrow> dropWhile is_space v = []"
  proof
    assume "\<forall>x \<in> set (dropWhile is_space v). is_space x"
    then show "dropWhile is_space v = []" by (rule a)
  next
    assume "dropWhile is_space v = []"
    then show "\<forall>x \<in> set (dropWhile is_space v). is_space x"
      by (auto dest: set_dropWhileD)
  qed
  also have "\<dots> \<longleftrightarrow> (\<forall>c \<in> set v. is_space c)"
    by (simp add: dropWhile_eq_Nil_conv)
  finally show ?thesis .
qed

lemma length_aliases: "length aliases = 13"
  by (simp add: aliases_def)

lemma GIEntry_init_Inr:
  assumes "GIEntry_init kw = Inr e"
  shows "\<forall>a \<in> set aliases. kw a \<noteq> None"
    and "model_dump e = map (\<lambda>a. (a, field_value kw a)) aliases"
proof -
  from assms have f: "filter (\<lambda>a. kw a = None) aliases = []"
    by (simp add: GIEntry_init_def split: list.splits)
  then show "\<forall>a \<in> set aliases. kw a \<noteq> None"
    by (simp add: filter_empty_conv)
  from assms f have "e = \<lparr>food_name = field_value kw ''Food Name'',
                  gi = field_value kw ''GI'',
                  manufacturer = field_value kw ''Food Manufacturer'',
                  category = field_value kw ''Product Category'',
                  country = field_value kw ''Country of food production'',
                  serving_size = field_value kw ''Serving Size (g)'',
                  carbs_portion = field_value kw
                    ''Carbohydrate portion (g) or Average Carbohydrate portion (g)'',
                  gl = field_value kw ''GL'',
                  reference = field_value kw ''Reference:'',
                  subjects_type = field_value kw ''Subjects type'',
                  time = field_value kw ''Time'',
                  subjects_number = field_value kw ''Subjects Number'',
                  year = field_value kw ''Year of test''\<rparr>"
    by (simp add: GIEntry_init_def)
  then show "model_dump e = map (\<lambda>a. (a, field_value kw a)) aliases"
    by (simp add: model_dump_def aliases_def)
qed

lemma map_of_graph: "a \<in> set xs \<Longrightarrow> map_of (map (\<lambda>x. (x, f x)) xs) a = Some (f a)"
  by (induction xs) auto

text \<open>
  C2. A record that validation produces has all thirteen schema fields, each a string:
  its dump has exactly the thirteen aliases as keys. Every field holds the text the row
  gave for its alias, and holds the empty string when that text is empty or consists of
  whitespace only.
\<close>

theorem validated_record_fields:
  assumes "GIEntry_init kw = Inr e"
  shows "map fst (model_dump e) = aliases \<and> length (model_dump e) = 13
    \<and> (\<forall>a \<in> set aliases. \<exists>v. kw a = Some v
          \<and> map_of (model_dump e) a = Some (if \<forall>c \<in> set v. is_space c then [] else v))"
proof -
  have md: "model_dump e = map (\<lambda>a. (a, field_value kw a)) aliases"
    using GIEntry_init_Inr(2) [OF assms] .
  have "map fst (model_dump e) = aliases"
    by (simp add: md comp_def)
  moreover have "length (model_dump e) = 13"
    by (simp add: md length_aliases)
  moreover have "\<exists>v. kw a = Some v
      \<and> map_of (model_dump e) a = Some (if \<forall>c \<in> set v. is_space c then [] else v)"
    if a: "a \<in> set aliases" for a
  proof -
    from GIEntry_init_Inr(1) [OF assms] a obtain v where v: "kw a = Some v"
      by auto
    have "map_of (map (\<lambda>a. (a, field_value kw a)) aliases) a = Some (field_value kw a)"
      using a by (rule map_of_graph)
    with v show ?thesis
      by (simp add: md field_value_def empty_to_none_def strip_Nil_iff)
  qed
  ultimately show ?thesis by blast
qed

theorem validated_record_fields_witness:
  "GIEntry_init (dict_zip aliases (reconcile (length aliases) [''Apple'', '' '']))
     = Inr \<lparr>food_name = ''Apple'', gi = [], manufacturer = [], category = [], country = [],
            serving_size = [], carbs_portion = [], gl = [], reference = [],
            subjects_type = [], time = [], subjects_number = [], year = []\<rparr>
   \<and> map_of (model_dump \<lparr>food_name = ''Apple'', gi = [], manufacturer = [], category = [],
            country = [], serving_size = [], carbs_portion = [], gl = [], reference = [],
            subjects_type = [], time = [], subjects_number = [], year = []\<rparr>) ''GI'' = Some []"
proof -
  let ?kw = "dict_zip aliases (reconcile (length aliases) [''Apple'', '' ''])"
  let ?e = "\<lparr>food_name = ''Apple'', gi = [], manufacturer = [], category = [], country = [],
            serving_size = [], carbs_portion = [], gl = [], reference = [],
            subjects_type = [], time = [], subjects_number = [], year = []\<rparr>"
  have h: "GIEntry_init ?kw = Inr ?e"
    by (simp add: GIEntry_init_def dict_zip_def reconcile_def aliases_def field_value_def
        empty_to_none_def strip_def is_space_def numeral_eq_Suc)
  have kw: "?kw ''GI'' = Some '' ''"
    by (simp add: dict_zip_def reconcile_def aliases_def numeral_eq_Suc)
  have a: "''GI'' \<in> set aliases"
    by (simp add: aliases_def)
  from validated_record_fields [OF h] a have "\<exists>v. ?kw ''GI'' = Some v
      \<and> map_of (model_dump ?e) ''GI'' = Some (if \<forall>c \<in> set v. is_space c then [] else v)"
    by blast
  with kw have "map_of (model_dump ?e) ''GI'' = Some []"
    by (simp add: is_space_def)
  with h show ?thesis by blast
qed

subsection \<open>The mapping from header to value\<close>

lemma foldl_upd_other:
  "key \<notin> fst ` set kvs \<Longrightarrow> foldl (\<lambda>m (k, v). m(k \<mapsto> v)) m kvs key = m key"
  by (induction kvs arbitrary: m) auto

lemma foldl_upd_last:
  assumes "length vs = length ks" "j < length ks"
    and "\<forall>k. j < k \<and> k < length ks \<longrightarrow> ks ! k \<noteq> ks ! j"
  shows "foldl (\<lambda>m (k, v). m(k \<mapsto> v)) m (zip ks vs) (ks ! j) = Some (vs ! j)"
  using assms
proof (induction ks arbitrary: vs m j)
  case Nil
  then show ?case by simp
next
  case (Cons k0 ks')
  then obtain v0 vs' where vs: "vs = v0 # vs'" and len: "length vs' = length ks'"
    by (cases vs) auto
  show ?case
  proof (cases j)
    case 0
    have "k0 \<notin> fst ` set (zip ks' vs')"
    proof
      assume "k0 \<in> fst ` set (zip ks' vs')"
      then have "k0 \<in> set ks'"
        by (auto dest: set_zip_leftD)
      then obtain i where "i < length ks'" "ks' ! i = k0"
        by (auto simp: in_set_conv_nth)
      with Cons.prems(3) 0 show False
        by (auto dest: spec [of _ "Suc i"])
    qed
    then have "foldl (\<lambda>m (k, v). m(k \<mapsto> v)) (m(k0 \<mapsto> v0)) (zip ks' vs') k0
        = (m(k0 \<mapsto> v0)) k0"
      by (rule foldl_upd_other)
    also have "\<dots> = Some v0"
      by simp
    finally have "foldl (\<lambda>m (k, v). m(k \<mapsto> v)) (m(k0 \<mapsto> v0)) (zip ks' vs') k0 = Some v0" .
    then show ?thesis
      using 0 vs by (simp del: fun_upd_apply)
  next
    case (Suc j')
    from Cons.prems Suc have "j' < length ks'"
      and "\<forall>k. j' < k \<and> k < length ks' \<longrightarrow> ks' ! k \<noteq> ks' ! j'"
      by (auto dest: spec [of _ "Suc _"])
    from Cons.IH [OF len this] show ?thesis
      using Suc vs by (simp del: fun_upd_apply)
  qed
qed

text \<open>
  C7. When two header columns carry the same label, the mapping built from the headers
  and the reconciled row holds, for that label, the value of the rightmost column with
  the label.
\<close>

theorem duplicate_header_last_wins:
  assumes "i < j" "j < length column_names"
    and "column_names ! i = column_names ! j"
    and "\<forall>k. j < k \<and> k < length column_names \<longrightarrow> column_names ! k \<noteq> column_names ! j"
  shows "dict_zip column_names (reconcile (length column_names) data) (column_names ! i)
           = Some (reconcile (length column_names) data ! j)"
proof -
  have "length (reconcile (length column_names) data) = length column_names"
    by (simp add: reconcile_def)
  from foldl_upd_last [OF this assms(2) assms(4)] assms(3) show ?thesis
    by (simp add: dict_zip_def)
qed

theorem duplicate_header_last_wins_witness:
  "dict_zip [''GI'', ''Time'', ''GI'']
     (reconcile (length [''GI'', ''Time'', ''GI'']) [''40'', ''2h'', ''55''])
     ([''GI'', ''Time'', ''GI''] ! 0) = Some ''55''"
proof -
  have "(0::nat) < 2" "(2::nat) < length [''GI'', ''Time'', ''GI'']"
    "[''GI'', ''Time'', ''GI''] ! 0 = [''GI'', ''Time'', ''GI''] ! 2"
    "\<forall>k. 2 < k \<and> k < length [''GI'', ''Time'', ''GI'']
       \<longrightarrow> [''GI'', ''Time'', ''GI''] ! k \<noteq> [''GI'', ''Time'', ''GI''] ! 2"
    by simp_all
  from duplicate_header_last_wins [OF this, of "[''40'', ''2h'', ''55'']"] show ?thesis
    by (simp add: reconcile_def)
qed

subsection \<open>Rows that fail validation\<close>

lemma process_row_state:
  "process_row cn row (es, out)
     = (es @ fst (process_row cn row ([], [])), out @ snd (process_row cn row ([], [])))"
  by (simp add: process_row_def Let_def split: sum.splits)

lemma process_rows_state:
  "process_rows cn rows (es, out)
     = (es @ fst (process_rows cn rows ([], [])), out @ snd (process_rows cn rows ([], [])))"
proof (induction rows arbitrary: es out)
  case Nil
  then show ?case by simp
next
  case (Cons r rs)
  obtain a b where ab: "process_row cn r ([], []) = (a, b)"
    by (cases "process_row cn r ([], [])")
  have "process_rows cn (r # rs) (es, out) = process_rows cn rs (es @ a, out @ b)"
    using process_row_state [of cn r es out] ab by simp
  also have "\<dots> = ((es @ a) @ fst (process_rows cn rs ([], [])),
                     (out @ b) @ snd (process_rows cn rs ([], [])))"
    by (rule Cons.IH)
  also have "process_rows cn (r # rs) ([], []) = process_rows cn rs (a, b)"
    using ab by simp
  then have "process_rows cn (r # rs) ([], [])
      = (a @ fst (process_rows cn rs ([], [])), b @ snd (process_rows cn rs ([], [])))"
    using Cons.IH [of a b] by simp
  then have "((es @ a) @ fst (process_rows cn rs ([], [])),
              (out @ b) @ snd (process_rows cn rs ([], [])))
      = (es @ fst (process_rows cn (r # rs) ([], [])),
         out @ snd (process_rows cn (r # rs) ([], [])))"
    by simp
  finally show ?case .
qed

lemma process_rows_append:
  "process_rows cn (xs @ ys) st = process_rows cn ys (process_rows cn xs st)"
  by (induction xs arbitrary: st) auto

text \<open>
  C8. A row whose mapping does not satisfy the schema is the only row rejected: the loop
  prints the failure with the first entry of the reconciled row (or \<^verbatim>\<open>Unknown\<close>) and the
  error, adds no record, and goes on with the next row in the same state; the records of
  the run are those of the run without the row. The loop has no fatal outcome.
\<close>

theorem invalid_row_skipped:
  assumes cells: "find_all ''td'' row \<noteq> []"
    and data: "data = reconcile (length column_names) (map get_text (find_all ''td'' row))"
    and bad: "GIEntry_init (dict_zip column_names data) = Inl e"
  shows "process_row column_names row (entries, out)
           = (entries, out @ [ValidationFailed (row_label data), Printed e])
    \<and> process_rows column_names (row # rows) (entries, out)
           = process_rows column_names rows
               (entries, out @ [ValidationFailed (row_label data), Printed e])
    \<and> fst (process_rows column_names (before @ row # rows) (entries, out))
           = fst (process_rows column_names (before @ rows) (entries, out))"
proof -
  have step: "process_row column_names row st
      = (fst st, snd st @ [ValidationFailed (row_label data), Printed e])" for st
    using cells bad unfolding data by (simp add: process_row_def Let_def)
  have one: "process_row column_names row (entries, out)
           = (entries, out @ [ValidationFailed (row_label data), Printed e])"
    by (simp add: step)
  have two: "process_rows column_names (row # rows) (entries, out)
           = process_rows column_names rows
               (entries, out @ [ValidationFailed (row_label data), Printed e])"
    by (simp add: step)
  obtain es1 out1 where b: "process_rows column_names before (entries, out) = (es1, out1)"
    by (cases "process_rows column_names before (entries, out)")
  have "fst (process_rows column_names (before @ row # rows) (entries, out))
      = fst (process_rows column_names rows
               (es1, out1 @ [ValidationFailed (row_label data), Printed e]))"
    by (simp add: process_rows_append b step)
  also have "\<dots> = es1 @ fst (process_rows column_names rows ([], []))"
    by (subst process_rows_state) simp
  also have "\<dots> = fst (process_rows column_names rows (es1, out1))"
    by (subst (2) process_rows_state) simp
  also have "\<dots> = fst (process_rows column_names (before @ rows) (entries, out))"
    by (simp add: process_rows_append b)
  finally show ?thesis
    using one two by blast
qed

theorem invalid_row_skipped_witness:
  "process_rows [''Food Name'']
     [Tag ''tr'' [] [Tag ''td'' [] [NavigableString '' Apple '']],
      Tag ''tr'' [] [Tag ''td'' [] [NavigableString ''Pear'']]] ([], [])
   = process_rows [''Food Name''] [Tag ''tr'' [] [Tag ''td'' [] [NavigableString ''Pear'']]]
       ([], [ValidationFailed ''Apple'', Printed (ValidationError (tl aliases))])"
proof -
  let ?row = "Tag ''tr'' [] [Tag ''td'' [] [NavigableString '' Apple '']]"
  have cells: "find_all ''td'' ?row \<noteq> []"
    by (simp add: find_all_def)
  have data: "[''Apple'']
      = reconcile (length [''Food Name'']) (map get_text (find_all ''td'' ?row))"
    by (simp add: find_all_def get_text_def strip_def is_space_def reconcile_def)
  have bad: "GIEntry_init (dict_zip [''Food Name''] [''Apple''])
      = Inl (ValidationError (tl aliases))"
    by (simp add: GIEntry_init_def dict_zip_def aliases_def)
  from invalid_row_skipped [OF cells data bad, of "[]" "[]"
      "[Tag ''tr'' [] [Tag ''td'' [] [NavigableString ''Pear'']]]" "[]"]
  show ?thesis
    by (simp add: row_label_def)
qed

subsection \<open>The records of a run\<close>

lemma main_rows:
  assumes "find_table soup = Some table" "find_tag ''thead'' table = Some thead"
    and "find_tag ''tbody'' table = Some tbody"
    and "cn = map get_text (find_all ''th'' thead)"
    and "st = process_rows cn (find_all ''tr'' tbody)
                ([], [Downloading, FoundColumns cn, Processing (length (find_all ''tr'' tbody))])"
  shows "main (Response soup) io =
           (if fst st = []
            then \<lparr>exit_status = 0, printed = snd st @ [NoValidEntries], gi_data_csv = None\<rparr>
            else save_csv io cn (fst st) (snd st))"
  by (simp add: main_def extract_and_save_def assms Let_def)

lemma entries_of_rows:
  "fst (process_rows cn rows (es, out)) = es @ fst (process_rows cn rows ([], []))"
  by (subst process_rows_state) simp

lemma entries_in_order:
  "fst (process_rows cn rows ([], []))
     = concat (map (\<lambda>row. fst (process_row cn row ([], []))) rows)"
proof (induction rows)
  case Nil
  then show ?case by simp
next
  case (Cons r rs)
  have "fst (process_rows cn (r # rs) ([], []))
      = fst (process_rows cn rs (fst (process_row cn r ([], [])), snd (process_row cn r ([], []))))"
    by simp
  also have "\<dots> = fst (process_row cn r ([], [])) @ fst (process_rows cn rs ([], []))"
    by (rule entries_of_rows)
  finally show ?case
    using Cons.IH by simp
qed

lemma dict_zip_None: "a \<notin> set ks \<Longrightarrow> dict_zip ks vs a = None"
proof -
  assume "a \<notin> set ks"
  then have "a \<notin> fst ` set (zip ks vs)"
    by (auto dest: set_zip_leftD)
  then have "foldl (\<lambda>m (k, v). m(k \<mapsto> v)) Map.empty (zip ks vs) a = Map.empty a"
    by (rule foldl_upd_other)
  then show ?thesis
    by (simp add: dict_zip_def)
qed

lemma GIEntry_init_missing:
  assumes "a \<in> set aliases" "kw a = None"
  shows "\<exists>ms. GIEntry_init kw = Inl (ValidationError ms) \<and> a \<in> set ms"
proof -
  from assms have "a \<in> set (filter (\<lambda>a. kw a = None) aliases)"
    by simp
  then show ?thesis
    by (cases "filter (\<lambda>a. kw a = None) aliases") (auto simp: GIEntry_init_def)
qed

lemma process_row_entries:
  assumes "r \<in> set (fst (process_row cn row ([], [])))"
  shows "map fst r = aliases \<and> set aliases \<subseteq> set cn"
proof -
  let ?data = "reconcile (length cn) (map get_text (find_all ''td'' row))"
  from assms obtain e where e: "GIEntry_init (dict_zip cn ?data) = Inr e" and r: "r = model_dump e"
    by (auto simp: process_row_def Let_def split: if_splits sum.splits)
  have "map fst r = aliases"
    unfolding r by (simp add: GIEntry_init_Inr(2) [OF e] comp_def)
  moreover have "a \<in> set cn" if "a \<in> set aliases" for a
  proof (rule ccontr)
    assume "a \<notin> set cn"
    then have "dict_zip cn ?data a = None"
      by (rule dict_zip_None)
    with GIEntry_init_Inr(1) [OF e] that show False
      by blast
  qed
  ultimately show ?thesis by blast
qed

lemma entries_valid:
  assumes "r \<in> set (fst (process_rows cn rows ([], [])))"
  shows "map fst r = aliases \<and> set aliases \<subseteq> set cn"
  using assms process_row_entries by (auto simp: entries_in_order)

lemma missing_alias_no_entries:
  assumes "a \<in> set aliases" "a \<notin> set cn"
  shows "fst (process_rows cn rows ([], [])) = []"
proof (rule ccontr)
  assume "fst (process_rows cn rows ([], [])) \<noteq> []"
  then obtain r where "r \<in> set (fst (process_rows cn rows ([], [])))"
    by (cases "fst (process_rows cn rows ([], []))") auto
  from entries_valid [OF this] assms show False
    by blast
qed

subsection \<open>Writing the file\<close>

lemma row_values_header: "row_values fn (zip fn fn) = fn"
proof -
  have "map_of (zip fn fn) k = Some k" if "k \<in> set fn" for k
    using that by (induction fn) auto
  then have "map (\<lambda>key. case map_of (zip fn fn) key of Some v \<Rightarrow> v | None \<Rightarrow> []) fn = map (\<lambda>k. k) fn"
    by (intro map_cong) auto
  then show ?thesis
    by (simp add: row_values_def)
qed

lemma dict_to_list_ok:
  assumes "set (map fst r) \<subseteq> set fn"
  shows "dict_to_list fn r = Inr (row_values fn r)"
proof -
  from assms have "filter (\<lambda>k. k \<notin> set fn) (map fst r) = []"
    by (auto simp: filter_empty_conv)
  then show ?thesis
    by (simp add: dict_to_list_def)
qed

lemma dict_to_list_header: "dict_to_list fn (zip fn fn) = Inr fn"
  using dict_to_list_ok [of "zip fn fn" fn] by (simp add: row_values_header)

lemma writerow_ok:
  assumes "set (map fst r) \<subseteq> set fn"
  shows "writerow fn r f = (f @ csv_line (row_values fn r), None)"
  by (simp add: writerow_def f_write_def dict_to_list_ok [OF assms])

lemma writerows_ok:
  assumes "\<forall>r \<in> set rs. set (map fst r) \<subseteq> set fn"
  shows "writerows fn rs f = (f @ concat (map (\<lambda>r. csv_line (row_values fn r)) rs), None)"
  using assms
proof (induction rs arbitrary: f)
  case Nil
  then show ?case by simp
next
  case (Cons r rs)
  then have r: "writerow fn r f = (f @ csv_line (row_values fn r), None)"
    and rs: "\<forall>r \<in> set rs. set (map fst r) \<subseteq> set fn"
    by (simp_all add: writerow_ok)
  show ?case
    using Cons.IH [OF rs, of "f @ csv_line (row_values fn r)"] by (simp add: r)
qed

lemma save_csv_writerows:
  assumes "rs = zip cn cn # entries"
  shows "save_csv io cn entries out =
     (case open_file io of
        Inl e \<Rightarrow> \<lparr>exit_status = 1, printed = out @ [FailedToSave e], gi_data_csv = None\<rparr>
      | Inr f \<Rightarrow>
          (case close_file io (fst (writerows cn rs f)) of
             (left, failed) \<Rightarrow>
               (case (case failed of Some e \<Rightarrow> Some e | None \<Rightarrow> snd (writerows cn rs f)) of
                  None \<Rightarrow>
                    \<lparr>exit_status = 0,
                     printed = out @ [Saved (length entries) output_csv],
                     gi_data_csv = Some left\<rparr>
                | Some e \<Rightarrow>
                    \<lparr>exit_status = 1,
                     printed = out @ [FailedToSave e],
                     gi_data_csv = Some left\<rparr>)))"
  by (simp add: assms save_csv_def writeheader_def split: sum.splits prod.splits option.splits)

lemma save_csv_valid:
  assumes "\<forall>r \<in> set entries. set (map fst r) \<subseteq> set cn"
    and "records = cn # map (row_values cn) entries"
  shows "save_csv io cn entries out =
     (case io of
        OpenFails msg \<Rightarrow>
          \<lparr>exit_status = 1, printed = out @ [FailedToSave (OSError msg)], gi_data_csv = None\<rparr>
      | WriteFails n msg \<Rightarrow>
          \<lparr>exit_status = 1, printed = out @ [FailedToSave (OSError msg)],
           gi_data_csv = Some (take n (concat (map csv_line records)))\<rparr>
      | IoOk \<Rightarrow>
          \<lparr>exit_status = 0, printed = out @ [Saved (length entries) output_csv],
           gi_data_csv = Some (concat (map csv_line records))\<rparr>)"
proof -
  define rs where "rs = zip cn cn # entries"
  have ok: "\<forall>r \<in> set rs. set (map fst r) \<subseteq> set cn"
    using assms(1) by (auto simp: rs_def dest: set_zip_leftD)
  have recs: "map (\<lambda>r. csv_line (row_values cn r)) rs = map csv_line records"
    by (simp add: rs_def assms(2) row_values_header comp_def)
  have w: "writerows cn rs [] = (concat (map csv_line records), None)"
    using writerows_ok [OF ok, of "[]"] by (simp only: recs append_Nil)
  note s = save_csv_writerows [OF rs_def]
  show ?thesis
    by (cases io) (simp_all add: s open_file_def close_file_def w)
qed

lemma count_list_concat:
  "count_list (concat xss) c = sum_list (map (\<lambda>xs. count_list xs c) xss)"
  by (induction xss) simp_all

lemma count_doubled_quotes:
  "count_list (concat (map (\<lambda>c. if c = CHR 0x22 then [c, c] else [c]) s)) (CHR 0x0A)
     = count_list s (CHR 0x0A)"
  by (induction s) simp_all

lemma count_quote_field: "count_list (quote_field s) (CHR 0x0A) = count_list s (CHR 0x0A)"
  by (simp add: quote_field_def count_doubled_quotes)

lemma count_join_fields:
  "count_list (join_fields xs) (CHR 0x0A) = sum_list (map (\<lambda>x. count_list x (CHR 0x0A)) xs)"
  by (induction xs rule: join_fields.induct) simp_all

lemma count_csv_line:
  "count_list (csv_line vals) (CHR 0x0A)
     = sum_list (map (\<lambda>v. count_list v (CHR 0x0A)) vals) + 1"
  by (simp add: csv_line_def count_join_fields count_quote_field comp_def)

lemma count_csv_text:
  "count_list (concat (map csv_line records)) (CHR 0x0A)
     = length records + sum_list (map (\<lambda>v. count_list v (CHR 0x0A)) (concat records))"
  by (induction records) (simp_all add: count_csv_line)

lemma main_entries:
  assumes "find_table soup = Some table" "find_tag ''thead'' table = Some thead"
    and "find_tag ''tbody'' table = Some tbody"
    and "cn = map get_text (find_all ''th'' thead)"
    and "entries = fst (process_rows cn (find_all ''tr'' tbody) ([], []))"
    and "records = cn # map (row_values cn) entries"
  shows "\<exists>out. main (Response soup) io =
           (if entries = []
            then \<lparr>exit_status = 0, printed = out @ [NoValidEntries], gi_data_csv = None\<rparr>
            else (case io of
        OpenFails msg \<Rightarrow>
          \<lparr>exit_status = 1, printed = out @ [FailedToSave (OSError msg)], gi_data_csv = None\<rparr>
      | WriteFails n msg \<Rightarrow>
          \<lparr>exit_status = 1, printed = out @ [FailedToSave (OSError msg)],
           gi_data_csv = Some (take n (concat (map csv_line records)))\<rparr>
      | IoOk \<Rightarrow>
          \<lparr>exit_status = 0, printed = out @ [Saved (length entries) output_csv],
           gi_data_csv = Some (concat (map csv_line records))\<rparr>))"
proof -
  define st where "st = process_rows cn (find_all ''tr'' tbody)
                ([], [Downloading, FoundColumns cn, Processing (length (find_all ''tr'' tbody))])"
  have e: "fst st = entries"
    unfolding st_def assms(5) by (subst entries_of_rows) simp
  have v: "\<forall>r \<in> set entries. set (map fst r) \<subseteq> set cn"
    unfolding assms(5) using entries_valid by auto
  have "main (Response soup) io =
           (if fst st = []
            then \<lparr>exit_status = 0, printed = snd st @ [NoValidEntries], gi_data_csv = None\<rparr>
            else save_csv io cn (fst st) (snd st))"
    using assms(1-4) st_def by (rule main_rows)
  then show ?thesis
    unfolding e save_csv_valid [OF v assms(6)] by blast
qed

text \<open>
  C3, as stated, fails: a cell text keeps the line breaks inside it, the writer quotes the
  field and writes the line break as it is, and the record then spans two lines of the file.
  Below, one row validates and the file has three lines.
\<close>

theorem csv_lines_counterexample:
  "printed (main (Response (page [gi_table [thead_of aliases,
       tbody_of [[''Apple'' @ [CHR 0x0A] @ ''Juice'']]]])) IoOk)
     = [Downloading, FoundColumns aliases, Processing 1, Saved 1 ''gi_data.csv'']
   \<and> gi_data_csv (main (Response (page [gi_table [thead_of aliases,
       tbody_of [[''Apple'' @ [CHR 0x0A] @ ''Juice'']]]])) IoOk)
     = Some (''Food Name,GI,Food Manufacturer,Product Category,Country of food production,''
          @ ''Serving Size (g),Carbohydrate portion (g) or Average Carbohydrate portion (g),''
          @ ''GL,Reference:,Subjects type,Time,Subjects Number,Year of test''
          @ [CHR 0x0D, CHR 0x0A]
          @ [CHR 0x22] @ ''Apple'' @ [CHR 0x0A] @ ''Juice'' @ [CHR 0x22] @ '',,,,,,,,,,,,''
          @ [CHR 0x0D, CHR 0x0A])
   \<and> count_list (''Food Name,GI,Food Manufacturer,Product Category,Country of food production,''
          @ ''Serving Size (g),Carbohydrate portion (g) or Average Carbohydrate portion (g),''
          @ ''GL,Reference:,Subjects type,Time,Subjects Number,Year of test''
          @ [CHR 0x0D, CHR 0x0A]
          @ [CHR 0x22] @ ''Apple'' @ [CHR 0x0A] @ ''Juice'' @ [CHR 0x22] @ '',,,,,,,,,,,,''
          @ [CHR 0x0D, CHR 0x0A]) (CHR 0x0A) = 3"
  by code_simp

text \<open>
  C3, amended. When the table with its header and body sections is found, \<open>N > 0\<close> rows
  validate and no file operation fails, the run ends with status 0 and the file holds
  exactly \<open>N + 1\<close> CSV records, each ended by CR LF: first the header labels in the order
  found, then one record per validated row, in the order the rows were processed. The
  number of line feeds in the file is \<open>N + 1\<close> plus the number of line feeds inside the
  labels and values written, so the file has exactly \<open>N + 1\<close> lines when no label and no
  value holds a line feed.
\<close>

theorem csv_records:
  assumes "find_table soup = Some table" "find_tag ''thead'' table = Some thead"
    and "find_tag ''tbody'' table = Some tbody"
    and "column_names = map get_text (find_all ''th'' thead)"
    and "entries = fst (process_rows column_names (find_all ''tr'' tbody) ([], []))"
    and "records = column_names # map (row_values column_names) entries"
    and "entries \<noteq> []"
  shows "exit_status (main (Response soup) IoOk) = 0
    \<and> gi_data_csv (main (Response soup) IoOk) = Some (concat (map csv_line records))
    \<and> length records = length entries + 1
    \<and> entries = concat (map (\<lambda>row. fst (process_row column_names row ([], [])))
                   (find_all ''tr'' tbody))
    \<and> count_list (concat (map csv_line records)) (CHR 0x0A)
        = length entries + 1
          + sum_list (map (\<lambda>v. count_list v (CHR 0x0A)) (concat records))"
proof -
  from main_entries [OF assms(1-6), of IoOk] assms(7)
  have "exit_status (main (Response soup) IoOk) = 0"
    and "gi_data_csv (main (Response soup) IoOk) = Some (concat (map csv_line records))"
    by auto
  moreover have "length records = length entries + 1"
    by (simp add: assms(6))
  moreover have "entries = concat (map (\<lambda>row. fst (process_row column_names row ([], [])))
                   (find_all ''tr'' tbody))"
    unfolding assms(5) by (rule entries_in_order)
  moreover have "count_list (concat (map csv_line records)) (CHR 0x0A)
        = length entries + 1
          + sum_list (map (\<lambda>v. count_list v (CHR 0x0A)) (concat records))"
    unfolding count_csv_text by (simp add: assms(6))
  ultimately show ?thesis by blast
qed

theorem csv_records_witness:
  "exit_status (main (Response (page [gi_table [thead_of aliases,
       tbody_of [[''Apple'', ''40''], [''Pear'']]]])) IoOk) = 0
   \<and> gi_data_csv (main (Response (page [gi_table [thead_of aliases,
       tbody_of [[''Apple'', ''40''], [''Pear'']]]])) IoOk)
     = Some (''Food Name,GI,Food Manufacturer,Product Category,Country of food production,''
          @ ''Serving Size (g),Carbohydrate portion (g) or Average Carbohydrate portion (g),''
          @ ''GL,Reference:,Subjects type,Time,Subjects Number,Year of test''
          @ [CHR 0x0D, CHR 0x0A] @ ''Apple,40,,,,,,,,,,,'' @ [CHR 0x0D, CHR 0x0A]
          @ ''Pear,,,,,,,,,,,,'' @ [CHR 0x0D, CHR 0x0A])"
proof -
  let ?table = "gi_table [thead_of aliases, tbody_of [[''Apple'', ''40''], [''Pear'']]]"
  let ?soup = "page [?table]"
  let ?e1 = "model_dump \<lparr>food_name = ''Apple'', gi = ''40'', manufacturer = [], category = [],
            country = [], serving_size = [], carbs_portion = [], gl = [], reference = [],
            subjects_type = [], time = [], subjects_number = [], year = []\<rparr>"
  let ?e2 = "model_dump \<lparr>food_name = ''Pear'', gi = [], manufacturer = [], category = [],
            country = [], serving_size = [], carbs_portion = [], gl = [], reference = [],
            subjects_type = [], time = [], subjects_number = [], year = []\<rparr>"
  let ?records = "[aliases, [''Apple'', ''40'', [], [], [], [], [], [], [], [], [], [], []],
       [''Pear'', [], [], [], [], [], [], [], [], [], [], [], []]]"
  have 1: "find_table ?soup = Some ?table"
    by code_simp
  have 2: "find_tag ''thead'' ?table = Some (thead_of aliases)"
    by code_simp
  have 3: "find_tag ''tbody'' ?table = Some (tbody_of [[''Apple'', ''40''], [''Pear'']])"
    by code_simp
  have 4: "aliases = map get_text (find_all ''th'' (thead_of aliases))"
    by code_simp
  have 5: "[?e1, ?e2] = fst (process_rows aliases
       (find_all ''tr'' (tbody_of [[''Apple'', ''40''], [''Pear'']])) ([], []))"
    by code_simp
  have 6: "?records = aliases # map (row_values aliases) [?e1, ?e2]"
    by code_simp
  have 7: "[?e1, ?e2] \<noteq> []"
    by simp
  have csv: "concat (map csv_line ?records)
      = ''Food Name,GI,Food Manufacturer,Product Category,Country of food production,''
          @ ''Serving Size (g),Carbohydrate portion (g) or Average Carbohydrate portion (g),''
          @ ''GL,Reference:,Subjects type,Time,Subjects Number,Year of test''
          @ [CHR 0x0D, CHR 0x0A] @ ''Apple,40,,,,,,,,,,,'' @ [CHR 0x0D, CHR 0x0A]
          @ ''Pear,,,,,,,,,,,,'' @ [CHR 0x0D, CHR 0x0A]"
    by code_simp
  from csv_records [OF 1 2 3 4 5 6 7]
  have "exit_status (main (Response ?soup) IoOk) = 0"
    and "gi_data_csv (main (Response ?soup) IoOk) = Some (concat (map csv_line ?records))"
    by blast+
  then show ?thesis
    unfolding csv by (rule conjI)
qed

subsection \<open>No valid row\<close>

text \<open>
  C4, as stated, fails: the table and its headers can be found while the table has no
  body section. No row validates then, and the run ends with status 1.
\<close>

theorem soft_success_counterexample:
  "find_table (page [gi_table [thead_of aliases]]) = Some (gi_table [thead_of aliases])
   \<and> map get_text (find_all ''th'' (thead_of aliases)) = aliases
   \<and> main (Response (page [gi_table [thead_of aliases]])) IoOk
       = \<lparr>exit_status = 1, printed = [Downloading, FoundColumns aliases, NoTbody],
          gi_data_csv = None\<rparr>"
  by code_simp

text \<open>
  C4, amended. If the table, its header section and its body section are found but no
  row validates, the run prints that there are no valid entries, ends with status 0 and
  does not open the output file.
\<close>

theorem soft_success:
  assumes "find_table soup = Some table" "find_tag ''thead'' table = Some thead"
    and "find_tag ''tbody'' table = Some tbody"
    and "fst (process_rows (map get_text (find_all ''th'' thead)) (find_all ''tr'' tbody)
           ([], [])) = []"
  shows "exit_status (main (Response soup) io) = 0
    \<and> gi_data_csv (main (Response soup) io) = None
    \<and> last (printed (main (Response soup) io)) = NoValidEntries"
  using main_entries [OF assms(1-3) refl refl refl, of io] assms(4) by auto

theorem soft_success_witness:
  "main (Response (page [gi_table [thead_of [''Food Name''], tbody_of [[''Apple'']]]])) IoOk
     = \<lparr>exit_status = 0,
        printed = [Downloading, FoundColumns [''Food Name''], Processing 1,
                   ValidationFailed ''Apple'', Printed (ValidationError (tl aliases)),
                   NoValidEntries],
        gi_data_csv = None\<rparr>"
proof -
  let ?table = "gi_table [thead_of [''Food Name''], tbody_of [[''Apple'']]]"
  have 1: "find_table (page [?table]) = Some ?table"
    by code_simp
  have 2: "find_tag ''thead'' ?table = Some (thead_of [''Food Name''])"
    by code_simp
  have 3: "find_tag ''tbody'' ?table = Some (tbody_of [[''Apple'']])"
    by code_simp
  have 4: "fst (process_rows (map get_text (find_all ''th'' (thead_of [''Food Name''])))
      (find_all ''tr'' (tbody_of [[''Apple'']])) ([], [])) = []"
    by code_simp
  have p: "printed (main (Response (page [?table])) IoOk)
      = [Downloading, FoundColumns [''Food Name''], Processing 1,
         ValidationFailed ''Apple'', Printed (ValidationError (tl aliases)), NoValidEntries]"
    by code_simp
  from soft_success [OF 1 2 3 4, of IoOk] p show ?thesis
    by (cases "main (Response (page [?table])) IoOk") simp
qed

subsection \<open>The table is not found\<close>

lemma find_table_None_iff:
  "find_table soup = None \<longleftrightarrow>
     \<not> (\<exists>t \<in> set (descendants soup). is_tag ''table'' t \<and> has_attr ''id'' ''tablepress-1'' t)"
proof -
  have "find_table soup = None \<longleftrightarrow>
      filter (has_attr ''id'' ''tablepress-1'') (find_all ''table'' soup) = []"
    by (simp add: find_table_def split: list.splits)
  then show ?thesis
    by (auto simp: find_all_def filter_empty_conv)
qed

text \<open>
  C5, as stated, fails: when the page has no table element at all, the run prints that
  the table was not found and nothing about the number of other tables.
\<close>

theorem table_count_counterexample:
  "find_table (page []) = None
   \<and> main (Response (page [])) IoOk
       = \<lparr>exit_status = 1, printed = [Downloading, TableNotFound], gi_data_csv = None\<rparr>"
  by code_simp

text \<open>
  C5, amended. If no table element with the fixed identifier is in the page, the run
  ends with status 1 and does not open the output file; it prints that the table was not
  found and, when the page has at least one table element, how many there are.
\<close>

theorem table_not_found:
  assumes "\<not> (\<exists>t \<in> set (descendants soup).
               is_tag ''table'' t \<and> has_attr ''id'' ''tablepress-1'' t)"
  shows "exit_status (main (Response soup) io) = 1
    \<and> gi_data_csv (main (Response soup) io) = None
    \<and> printed (main (Response soup) io)
        = [Downloading, TableNotFound]
          @ (if find_all ''table'' soup = [] then []
             else [FoundOtherTables (length (find_all ''table'' soup))])"
proof -
  from assms have "find_table soup = None"
    by (rule find_table_None_iff [THEN iffD2])
  then show ?thesis
    by (simp add: main_def Let_def)
qed

theorem table_not_found_witness:
  "main (Response (page [Tag ''table'' [] [], Tag ''table'' [(''id'', ''tablepress-2'')] []])) IoOk
     = \<lparr>exit_status = 1, printed = [Downloading, TableNotFound, FoundOtherTables 2],
        gi_data_csv = None\<rparr>"
proof -
  let ?soup = "page [Tag ''table'' [] [], Tag ''table'' [(''id'', ''tablepress-2'')] []]"
  have d: "descendants ?soup
      = [Tag ''html'' [] [Tag ''body'' [] [Tag ''table'' [] [],
           Tag ''table'' [(''id'', ''tablepress-2'')] []]],
         Tag ''body'' [] [Tag ''table'' [] [], Tag ''table'' [(''id'', ''tablepress-2'')] []],
         Tag ''table'' [] [], Tag ''table'' [(''id'', ''tablepress-2'')] []]"
    by code_simp
  have h: "\<not> (\<exists>t \<in> set (descendants ?soup).
               is_tag ''table'' t \<and> has_attr ''id'' ''tablepress-1'' t)"
    unfolding d by simp
  have n: "find_all ''table'' ?soup
      = [Tag ''table'' [] [], Tag ''table'' [(''id'', ''tablepress-2'')] []]"
    by code_simp
  from table_not_found [OF h, of IoOk] show ?thesis
    unfolding n by (cases "main (Response ?soup) IoOk") simp
qed

subsection \<open>Fatal errors\<close>




subsection \<open>The label of a rejected row\<close>

lemma GIEntry_init_empty: "GIEntry_init Map.empty = Inl (ValidationError aliases)"
  by (simp add: GIEntry_init_def aliases_def)

text \<open>
  C9, as stated, fails: when the header section has no header cell, every row is cut to
  the empty list, fails validation and is printed as \<^verbatim>\<open>Unknown\<close>.
\<close>

theorem unknown_label_counterexample:
  "map get_text (find_all ''td'' (Tag ''tr'' [] [Tag ''td'' [] [NavigableString ''Apple'']]))
     = [''Apple'']
   \<and> main (Response (page [gi_table [thead_of [], tbody_of [[''Apple'']]]])) IoOk
       = \<lparr>exit_status = 0,
          printed = [Downloading, FoundColumns [], Processing 1, ValidationFailed ''Unknown'',
                     Printed (ValidationError aliases), NoValidEntries],
          gi_data_csv = None\<rparr>"
  by code_simp

text \<open>
  C9, amended. For a row that reaches validation (it has at least one cell): when there
  is at least one header column the reconciled row is not empty and the label printed on
  failure is the text of the first cell, so the fallback \<^verbatim>\<open>Unknown\<close> is not taken; when
  there is no header column the reconciled row is empty, validation fails and the label
  is \<^verbatim>\<open>Unknown\<close>.
\<close>

theorem unknown_label:
  assumes "find_all ''td'' row \<noteq> []"
    and "data = reconcile (length column_names) (map get_text (find_all ''td'' row))"
  shows "(column_names \<noteq> [] \<longrightarrow>
            data \<noteq> [] \<and> row_label data = get_text (hd (find_all ''td'' row)))
    \<and> (column_names = [] \<longrightarrow>
            data = []
            \<and> process_row column_names row (entries, out)
                = (entries, out @ [ValidationFailed ''Unknown'',
                                   Printed (ValidationError aliases)]))"
proof (intro conjI impI)
  let ?cells = "map get_text (find_all ''td'' row)"
  from assms(1) obtain c cs where cells: "?cells = get_text (hd (find_all ''td'' row)) # cs"
    by (cases "find_all ''td'' row") auto
  {
    assume "column_names \<noteq> []"
    then obtain n where n: "length column_names = Suc n"
      by (cases column_names) auto
    have d: "data = get_text (hd (find_all ''td'' row)) # tl data"
      unfolding assms(2) cells n by (simp add: reconcile_def)
    then show "data \<noteq> []"
      by auto
    from d show "row_label data = get_text (hd (find_all ''td'' row))"
      by (cases data) (auto simp: row_label_def)
  }
  {
    assume e: "column_names = []"
    show d: "data = []"
      unfolding assms(2) e by (simp add: reconcile_def)
    have "process_row column_names row (entries, out)
        = (entries, out @ [ValidationFailed (row_label data), Printed (ValidationError aliases)])"
      using assms(1) d [unfolded assms(2)]
      by (simp add: process_row_def Let_def e dict_zip_def GIEntry_init_empty assms(2))
    then show "process_row column_names row (entries, out)
        = (entries, out @ [ValidationFailed ''Unknown'', Printed (ValidationError aliases)])"
      by (simp add: d row_label_def)
  }
qed

theorem unknown_label_witness:
  "row_label (reconcile (length [''Food Name'', ''GI''])
       (map get_text (find_all ''td'' (Tag ''tr'' [] [Tag ''td'' [] [NavigableString ''Apple'']]))))
     = ''Apple''
   \<and> process_row [] (Tag ''tr'' [] [Tag ''td'' [] [NavigableString ''Apple'']]) ([], [])
       = ([], [ValidationFailed ''Unknown'', Printed (ValidationError aliases)])"
proof -
  let ?row = "Tag ''tr'' [] [Tag ''td'' [] [NavigableString ''Apple'']]"
  have 1: "find_all ''td'' ?row \<noteq> []"
    by code_simp
  have g: "get_text (hd (find_all ''td'' ?row)) = ''Apple''"
    by code_simp
  from unknown_label [OF 1 refl, of "[''Food Name'', ''GI'']"] g
  have "row_label (reconcile (length [''Food Name'', ''GI''])
       (map get_text (find_all ''td'' ?row))) = ''Apple''"
    by simp
  moreover from unknown_label [OF 1 refl, of "[]" "[]" "[]"]
  have "process_row [] ?row ([], [])
       = ([], [ValidationFailed ''Unknown'', Printed (ValidationError aliases)])"
    by simp
  ultimately show ?thesis
    by (rule conjI)
qed

subsection \<open>A missing alias\<close>

text \<open>
  C10, as stated, fails: the header list can lack an alias while the table has no body
  section, and the run then ends with status 1.
\<close>

theorem missing_alias_counterexample:
  "find_table (page [gi_table [thead_of [''Food Name'', ''GI'']]])
     = Some (gi_table [thead_of [''Food Name'', ''GI'']])
   \<and> map get_text (find_all ''th'' (thead_of [''Food Name'', ''GI''])) = [''Food Name'', ''GI'']
   \<and> exit_status (main (Response (page [gi_table [thead_of [''Food Name'', ''GI'']]])) IoOk) = 1"
  by code_simp

text \<open>
  C10, amended. If the table, its header section and its body section are found and the
  header list lacks one of the thirteen aliases, then no row can validate, whatever its
  cells, so no record is collected and the run ends with status 0 without opening the
  output file.
\<close>

theorem missing_alias_soft_success:
  assumes "find_table soup = Some table" "find_tag ''thead'' table = Some thead"
    and "find_tag ''tbody'' table = Some tbody"
    and "column_names = map get_text (find_all ''th'' thead)"
    and "a \<in> set aliases" "a \<notin> set column_names"
  shows "(\<forall>data. \<exists>ms. GIEntry_init (dict_zip column_names data) = Inl (ValidationError ms))
    \<and> fst (process_rows column_names (find_all ''tr'' tbody) ([], [])) = []
    \<and> exit_status (main (Response soup) io) = 0
    \<and> gi_data_csv (main (Response soup) io) = None"
proof -
  have "\<exists>ms. GIEntry_init (dict_zip column_names data) = Inl (ValidationError ms)" for data
    using GIEntry_init_missing [of a "dict_zip column_names data"] assms(5)
      dict_zip_None [OF assms(6), of data] by blast
  moreover have e: "fst (process_rows column_names (find_all ''tr'' tbody) ([], [])) = []"
    using assms(5,6) by (rule missing_alias_no_entries)
  moreover from main_entries [OF assms(1-4) refl refl, of io] e
  have "exit_status (main (Response soup) io) = 0 \<and> gi_data_csv (main (Response soup) io) = None"
    by auto
  ultimately show ?thesis by blast
qed

theorem missing_alias_soft_success_witness:
  "exit_status (main (Response (page [gi_table [thead_of (butlast aliases),
       tbody_of [[''Apple'', ''40''], [''Pear'', ''38'']]]])) IoOk) = 0
   \<and> gi_data_csv (main (Response (page [gi_table [thead_of (butlast aliases),
       tbody_of [[''Apple'', ''40''], [''Pear'', ''38'']]]])) IoOk) = None"
proof -
  let ?body = "tbody_of [[''Apple'', ''40''], [''Pear'', ''38'']]"
  let ?table = "gi_table [thead_of (butlast aliases), ?body]"
  have 1: "find_table (page [?table]) = Some ?table"
    by code_simp
  have 2: "find_tag ''thead'' ?table = Some (thead_of (butlast aliases))"
    by code_simp
  have 3: "find_tag ''tbody'' ?table = Some ?body"
    by code_simp
  have 4: "butlast aliases = map get_text (find_all ''th'' (thead_of (butlast aliases)))"
    by code_simp
  have 5: "''Year of test'' \<in> set aliases"
    by code_simp
  have 6: "''Year of test'' \<notin> set (butlast aliases)"
    by code_simp
  from missing_alias_soft_success [OF 1 2 3 4 5 6, of IoOk] show ?thesis
    by blast
qed

end
